theory Spec2Isabelle
  imports Main "HOL-Library.Word"
begin

unbundle bit_operations_syntax

section \<open>Data model of xsvftool-ft232r2.c\<close>

text \<open>
  The pin register \<open>bb_reg\<close> is an \<open>unsigned char\<close>: an 8-bit word. The masks are the
  source's \<open>#define\<close>s (\<open>1<<7\<close>, \<open>1<<3\<close>, \<open>1<<6\<close>, \<open>1<<5\<close>); the source computes with
  them in \<open>int\<close> and stores the result back into an \<open>unsigned char\<close>, which is the 8-bit
  operation written here. C's \<open>int\<close>, \<open>long\<close> and \<open>time_t\<close> values are modelled by \<open>int\<close>;
  signed overflow (undefined in C) is outside the model. The one conversion between
  integer types that changes a value, the \<open>long\<close> handed to \<open>usleep\<close>, whose parameter
  is the 32-bit unsigned \<open>useconds_t\<close>, is written out (\<open>usleep\<close> below).
\<close>

type_synonym u8 = "8 word"

definition MASK_TMS :: u8 where
  "MASK_TMS = push_bit 7 1"

definition MASK_TDI :: u8 where
  "MASK_TDI = push_bit 3 1"

definition MASK_TDO :: u8 where
  "MASK_TDO = push_bit 6 1"

definition MASK_TCK :: u8 where
  "MASK_TCK = push_bit 5 1"

definition MASK_IO :: u8 where
  "MASK_IO = MASK_TMS OR MASK_TDI OR MASK_TCK"

definition BAUDRATE :: int where
  "BAUDRATE = 62500"

definition LATENCY :: int where
  "LATENCY = 1"

record timeval =
  tv_sec :: int
  tv_usec :: int

text \<open>
  Everything the program does to the outside is recorded, in call order, in a trace of
  events: the libftdi calls with their arguments, \<open>gettimeofday\<close>, \<open>usleep\<close>, and the
  lines printed (as structured messages, the number formatting of \<open>printf\<close> left out).
\<close>

datatype message =
    Msg_Setup
  | Msg_Shutdown
  | Msg_Cant_Open_Device
  | Msg_Delay int int int
  | Msg_Delay_After_Tck int
  | Msg_Pulse int int int int int int
  | Warn_Sck
  | Warn_Trst int
  | Warn_Frequency int

datatype event =
    Ftdi_Init
  | Ftdi_Usb_Open int int
  | Ftdi_Set_Baudrate int
  | Ftdi_Set_Latency_Timer int
  | Ftdi_Set_Bitmode u8 u8
  | Ftdi_Write_Data "u8 list"
  | Ftdi_Read_Data nat
  | Get_Time_Of_Day
  | Usleep "32 word"
  | Stdout message
  | Stderr message

text \<open>
  \<open>struct udata_s\<close>. The byte source \<open>f\<close> is left out (no function modelled here reads
  it). \<open>retval_i\<close> is an \<open>int\<close> that starts at 0 and is only ever incremented: a \<open>nat\<close>.
  \<open>retval\<close> is the array \<open>int retval[256]\<close>, a list whose length is 256 in every state
  of the program (\<open>udata_wf\<close> below).
\<close>

record udata_s =
  verbose :: int
  clockcount :: int
  bitcount_tdi :: int
  bitcount_tdo :: int
  retval_i :: nat
  retval :: "int list"

text \<open>
  The whole state: the session data \<open>u\<close>, the static \<open>bb_reg\<close>, the trace, and what the
  environment will answer. libftdi, the clock and the device are not part of the
  program, so their answers are parameters of the state:
  \<^item> \<open>usb_open_result\<close> is the value \<open>ftdi_usb_open\<close> returns (negative: no device);
  \<^item> \<open>readback k\<close> is the \<open>k\<close>-th byte found in \<open>buf_in\<close> after the \<open>ftdi_read_data\<close> calls,
    \<open>nread\<close> counting the bytes taken so far;
  \<^item> \<open>clock k\<close> is the reading of the \<open>k\<close>-th \<open>gettimeofday\<close> call, \<open>nclock\<close> counting the
    calls so far.
\<close>

record world = udata_s +
  bb_reg :: u8
  usb_open_result :: int
  readback :: "nat \<Rightarrow> u8"
  nread :: nat
  clock :: "nat \<Rightarrow> timeval"
  nclock :: nat
  trace :: "event list"

definition emit :: "event \<Rightarrow> world \<Rightarrow> world" where
  "emit e s = s\<lparr>trace := trace s @ [e]\<rparr>"

section \<open>Low-level bitbang layer\<close>

definition bb_setup :: "world \<Rightarrow> world" where
  "bb_setup s =
     (let s1 = emit Ftdi_Init s;
          s2 = emit (Ftdi_Usb_Open 0x0403 0x6001) s1
      in if usb_open_result s2 < 0 then emit (Stdout Msg_Cant_Open_Device) s2
         else
           (let s3 = emit (Ftdi_Set_Baudrate BAUDRATE) s2;
                s4 = emit (Ftdi_Set_Latency_Timer LATENCY) s3;
                s5 = emit (Ftdi_Set_Bitmode MASK_IO 0x4) s4
            in s5\<lparr>bb_reg := 0\<rparr>))"

definition bb_shutdown :: "world \<Rightarrow> world" where
  "bb_shutdown s = emit (Ftdi_Set_Bitmode 0 0) s"

definition bb_tms :: "int \<Rightarrow> world \<Rightarrow> world" where
  "bb_tms val s =
     (if val \<noteq> 0 then s\<lparr>bb_reg := bb_reg s OR MASK_TMS\<rparr>
      else s\<lparr>bb_reg := bb_reg s AND NOT MASK_TMS\<rparr>)"

definition bb_tdi :: "int \<Rightarrow> world \<Rightarrow> world" where
  "bb_tdi val s =
     (if val \<noteq> 0 then s\<lparr>bb_reg := bb_reg s OR MASK_TDI\<rparr>
      else s\<lparr>bb_reg := bb_reg s AND NOT MASK_TDI\<rparr>)"

text \<open>
  \<open>bb_pulse_tck\<close>, the LINUX branch: fill \<open>buf_out\<close>, hand its three bytes to
  \<open>ftdi_write_data\<close>, let \<open>ftdi_read_data\<close> fill \<open>buf_in\<close>, return the TDO bit of
  \<open>buf_in[2]\<close>. Both return values of libftdi are ignored by the source.
\<close>

definition buf_out :: "u8 \<Rightarrow> u8 list" where
  "buf_out reg =
     (let b0 = reg AND NOT MASK_TCK;
          b1 = reg OR MASK_TCK;
          b2 = b0
      in [b0, b1, b2])"

definition buf_in :: "world \<Rightarrow> u8 list" where
  "buf_in s = [readback s (nread s), readback s (nread s + 1), readback s (nread s + 2)]"

definition bb_pulse_tck :: "world \<Rightarrow> int \<times> world" where
  "bb_pulse_tck s =
     (let out = buf_out (bb_reg s);
          s1 = emit (Ftdi_Write_Data out) s;
          inp = buf_in s1;
          s2 = (emit (Ftdi_Read_Data 3) s1)\<lparr>nread := nread s1 + 3\<rparr>
      in (if (inp ! 2) AND MASK_TDO \<noteq> 0 then 1 else 0, s2))"

section \<open>Host callbacks\<close>

definition h_setup :: "world \<Rightarrow> int \<times> world" where
  "h_setup s =
     (let s1 = (if verbose s \<ge> 2 then emit (Stderr Msg_Setup) s else s)
      in (0, bb_setup s1))"

definition h_shutdown :: "world \<Rightarrow> int \<times> world" where
  "h_shutdown s =
     (let s1 = (if verbose s \<ge> 2 then emit (Stderr Msg_Shutdown) s else s)
      in (0, bb_shutdown s1))"

text \<open>The loop \<open>while (num_tck > 0) { bb_pulse_tck(); num_tck--; }\<close> of \<open>h_udelay\<close>.\<close>

function tck_loop :: "int \<Rightarrow> world \<Rightarrow> world" where
  "tck_loop num_tck s =
     (if num_tck > 0 then tck_loop (num_tck - 1) (snd (bb_pulse_tck s)) else s)"
  by pat_completeness auto
termination
  by (relation "measure (\<lambda>(num_tck, s). nat num_tck)") auto

declare tck_loop.simps [simp del]

definition gettimeofday :: "world \<Rightarrow> timeval \<times> world" where
  "gettimeofday s = (clock s (nclock s), (emit Get_Time_Of_Day s)\<lparr>nclock := nclock s + 1\<rparr>)"

text \<open>
  \<open>h_udelay\<close>, in three parts. \<open>subtract_elapsed\<close> is the arithmetic on the two clock
  readings:
  \<open>if (tv2.tv_sec > tv1.tv_sec) { usecs -= (1000000 - tv1.tv_usec) + (tv2.tv_sec - tv1.tv_sec - 1) * 1000000; tv1.tv_usec = 0; }
  usecs -= tv2.tv_usec - tv1.tv_usec;\<close>
\<close>

definition subtract_elapsed :: "int \<Rightarrow> timeval \<Rightarrow> timeval \<Rightarrow> int" where
  "subtract_elapsed usecs tv1 tv2 =
     (let (usecs1, tv1') =
            (if tv_sec tv2 > tv_sec tv1
             then (usecs - ((1000000 - tv_usec tv1) + (tv_sec tv2 - tv_sec tv1 - 1) * 1000000),
                   tv1\<lparr>tv_usec := 0\<rparr>)
             else (usecs, tv1))
      in usecs1 - (tv_usec tv2 - tv_usec tv1'))"

text \<open>The body of \<open>if (num_tck > 0) { ... }\<close>: the new \<open>usecs\<close> and the new state.\<close>

definition clocked_delay :: "int \<Rightarrow> int \<Rightarrow> int \<Rightarrow> world \<Rightarrow> int \<times> world" where
  "clocked_delay usecs tms num_tck s =
     (let (tv1, s1) = gettimeofday s;
          s2 = bb_tms tms s1;
          s3 = tck_loop num_tck s2;
          (tv2, s4) = gettimeofday s3;
          usecs' = subtract_elapsed usecs tv1 tv2;
          s5 = (if verbose s4 \<ge> 3
                then emit (Stderr (Msg_Delay_After_Tck (if usecs' > 0 then usecs' else 0))) s4
                else s4)
      in (usecs', s5))"

text \<open>
  The call \<open>usleep(usecs)\<close>: \<open>usleep\<close> is declared \<open>int usleep(useconds_t)\<close>, and
  \<open>useconds_t\<close> is a 32-bit unsigned integer, so the \<open>long\<close> argument is converted to
  it at the call: the value modulo \<open>2^32\<close> (a defined conversion in C). The event records
  the value \<open>usleep\<close> receives.
\<close>

definition usleep :: "int \<Rightarrow> world \<Rightarrow> world" where
  "usleep usecs s = emit (Usleep (word_of_int usecs)) s"

definition h_udelay :: "int \<Rightarrow> int \<Rightarrow> int \<Rightarrow> world \<Rightarrow> world" where
  "h_udelay usecs tms num_tck s =
     (let s1 = (if verbose s \<ge> 3 then emit (Stderr (Msg_Delay usecs tms num_tck)) s else s);
          (usecs', s2) =
            (if num_tck > 0 then clocked_delay usecs tms num_tck s1 else (usecs, s1))
      in if usecs' > 0 then usleep usecs' s2 else s2)"

text \<open>
  \<open>h_pulse_tck\<close>, statement by statement.
  \<open>drive_tdi\<close> is \<open>if (tdi >= 0) { u->bitcount_tdi++; bb_tdi(tdi); }\<close>.
\<close>

definition drive_tdi :: "int \<Rightarrow> world \<Rightarrow> world" where
  "drive_tdi tdi s =
     (if tdi \<ge> 0 then bb_tdi tdi (s\<lparr>bitcount_tdi := bitcount_tdi s + 1\<rparr>) else s)"

text \<open>
  \<open>if (rmask == 1 && u->retval_i < 256) u->retval[u->retval_i++] = line_tdo;\<close>
  The store runs under the guard \<open>retval_i < 256\<close>, so its index is inside the 256-entry
  array.
\<close>

definition capture_tdo :: "int \<Rightarrow> int \<Rightarrow> world \<Rightarrow> world" where
  "capture_tdo rmask line_tdo s =
     (if rmask = 1 \<and> retval_i s < 256
      then s\<lparr>retval := (retval s)[retval_i s := line_tdo], retval_i := retval_i s + 1\<rparr>
      else s)"

text \<open>
  \<open>if (tdo >= 0 && line_tdo >= 0) { u->bitcount_tdo++; if (tdo != line_tdo) rc = -1; }\<close>
\<close>

definition check_tdo :: "int \<Rightarrow> int \<Rightarrow> int \<Rightarrow> world \<Rightarrow> int \<times> world" where
  "check_tdo tdo line_tdo rc s =
     (if tdo \<ge> 0 \<and> line_tdo \<ge> 0
      then (if tdo \<noteq> line_tdo then -1 else rc, s\<lparr>bitcount_tdo := bitcount_tdo s + 1\<rparr>)
      else (rc, s))"

definition h_pulse_tck :: "int \<Rightarrow> int \<Rightarrow> int \<Rightarrow> int \<Rightarrow> int \<Rightarrow> world \<Rightarrow> int \<times> world" where
  "h_pulse_tck tms tdi tdo rmask sync s =
     (let s1 = bb_tms tms s;
          s2 = drive_tdi tdi s1;
          (line_tdo, s3) = bb_pulse_tck s2;
          rc = (if line_tdo \<ge> 0 then line_tdo else 0);
          s4 = capture_tdo rmask line_tdo s3;
          (rc', s5) = check_tdo tdo line_tdo rc s4;
          s6 = (if verbose s5 \<ge> 4
                then emit (Stderr (Msg_Pulse tms tdi tdo line_tdo rmask rc')) s5
                else s5)
      in (rc', s6\<lparr>clockcount := clockcount s6 + 1\<rparr>))"

definition h_pulse_sck :: "world \<Rightarrow> world" where
  "h_pulse_sck s = emit (Stderr Warn_Sck) s"

definition h_set_trst :: "int \<Rightarrow> world \<Rightarrow> world" where
  "h_set_trst v s = emit (Stderr (Warn_Trst v)) s"

definition h_set_frequency :: "int \<Rightarrow> world \<Rightarrow> int \<times> world" where
  "h_set_frequency v s = (0, emit (Stderr (Warn_Frequency v)) s)"

text \<open>
  \<open>h_report_device\<close> prints the identifier and three fields of it. \<open>idcode\<close> is an
  \<open>unsigned long\<close> (of any width); the result is the four values given to \<open>printf\<close>.
\<close>

definition h_report_device :: "'a::len word \<Rightarrow> 'a word \<times> 'a word \<times> 'a word \<times> 'a word" where
  "h_report_device idcode =
     (idcode,
      (drop_bit 28 idcode) AND 0xf,
      (drop_bit 12 idcode) AND 0xffff,
      (drop_bit 1 idcode) AND 0x7ff)"

section \<open>One session: any sequence of callbacks\<close>

text \<open>
  The sequencing engine (libxsvf) drives the callbacks above in some order; a session is
  a list of calls, run from left to right. Return values go back to the engine and are
  dropped here. The other callbacks of the source (\<open>h_getbyte\<close>, \<open>h_report_tapstate\<close>,
  \<open>h_report_status\<close>, \<open>h_report_error\<close>, \<open>h_realloc\<close>) use neither \<open>bb_reg\<close> nor
  \<open>bb_handle\<close> nor the counters and the capture array of \<open>u\<close>, and are not calls here.
\<close>

datatype call =
    Setup
  | Shutdown
  | Udelay int int int
  | Pulse_Tck int int int int int
  | Pulse_Sck
  | Set_Trst int
  | Set_Frequency int

fun step :: "call \<Rightarrow> world \<Rightarrow> world" where
  "step Setup s = snd (h_setup s)"
| "step Shutdown s = snd (h_shutdown s)"
| "step (Udelay usecs tms num_tck) s = h_udelay usecs tms num_tck s"
| "step (Pulse_Tck tms tdi tdo rmask sync) s = snd (h_pulse_tck tms tdi tdo rmask sync s)"
| "step Pulse_Sck s = h_pulse_sck s"
| "step (Set_Trst v) s = h_set_trst v s"
| "step (Set_Frequency v) s = snd (h_set_frequency v s)"

fun run :: "call list \<Rightarrow> world \<Rightarrow> world" where
  "run [] s = s"
| "run (c # cs) s = run cs (step c s)"

text \<open>
  The state at process start: the statics \<open>bb_reg\<close> and \<open>u\<close> are zero-initialised;
  \<open>verbose\<close> is what the \<open>-v\<close> options counted; the environment is a parameter.
\<close>

definition initial_world :: "int \<Rightarrow> int \<Rightarrow> (nat \<Rightarrow> u8) \<Rightarrow> (nat \<Rightarrow> timeval) \<Rightarrow> world" where
  "initial_world v open_rc rb clk =
     \<lparr>verbose = v, clockcount = 0, bitcount_tdi = 0, bitcount_tdo = 0,
      retval_i = 0, retval = replicate 256 0,
      bb_reg = 0, usb_open_result = open_rc, readback = rb, nread = 0,
      clock = clk, nclock = 0, trace = []\<rparr>"

section \<open>Printing the captured bits (the end of \<open>main\<close>)\<close>

text \<open>
  A read of \<open>u.retval[k]\<close> outside the array is undefined behaviour in C; the model
  makes it the error value \<open>Out_Of_Bounds\<close>.
\<close>

datatype error = Out_Of_Bounds

definition retval_read :: "'a udata_s_scheme \<Rightarrow> int \<Rightarrow> error + int" where
  "retval_read u k =
     (if 0 \<le> k \<and> nat k < length (retval u) then Inr (retval u ! nat k)
      else Inl Out_Of_Bounds)"

text \<open>
  The inner loop
  \<open>for (j=i; j<i+4; j++) val = val << 1 | u.retval[hex_mode > 1 ? j : u.retval_i - j - 1];\<close>
\<close>

function hex_inner :: "int \<Rightarrow> 'a udata_s_scheme \<Rightarrow> int \<Rightarrow> int \<Rightarrow> int \<Rightarrow> error + int" where
  "hex_inner hex_mode u i j val =
     (if j < i + 4 then
        (case retval_read u (if hex_mode > 1 then j else int (retval_i u) - j - 1) of
           Inl e \<Rightarrow> Inl e
         | Inr b \<Rightarrow> hex_inner hex_mode u i (j + 1) (push_bit 1 val OR b))
      else Inr val)"
  by pat_completeness auto
termination
  by (relation "measure (\<lambda>(hex_mode, u, i, j, val). nat (i + 4 - j))") auto

declare hex_inner.simps [simp del]

text \<open>
  The outer loop \<open>for (i=0; i < u.retval_i; i+=4) { int val = 0; ...; printf("%x", val); }\<close>;
  the result is the list of values printed.
\<close>

function hex_outer :: "int \<Rightarrow> 'a udata_s_scheme \<Rightarrow> int \<Rightarrow> error + int list" where
  "hex_outer hex_mode u i =
     (if i < int (retval_i u) then
        (case hex_inner hex_mode u i i 0 of
           Inl e \<Rightarrow> Inl e
         | Inr val \<Rightarrow>
             (case hex_outer hex_mode u (i + 4) of
                Inl e \<Rightarrow> Inl e
              | Inr vals \<Rightarrow> Inr (val # vals)))
      else Inr [])"
  by pat_completeness auto
termination
  by (relation "measure (\<lambda>(hex_mode, u, i). nat (int (retval_i u) - i))") auto

declare hex_outer.simps [simp del]

text \<open>The decimal loop \<open>for (i=0; i < u.retval_i; i++) printf(" %d", u.retval[i]);\<close>\<close>

function dec_loop :: "'a udata_s_scheme \<Rightarrow> int \<Rightarrow> error + int list" where
  "dec_loop u i =
     (if i < int (retval_i u) then
        (case retval_read u i of
           Inl e \<Rightarrow> Inl e
         | Inr b \<Rightarrow>
             (case dec_loop u (i + 1) of
                Inl e \<Rightarrow> Inl e
              | Inr vals \<Rightarrow> Inr (b # vals)))
      else Inr [])"
  by pat_completeness auto
termination
  by (relation "measure (\<lambda>(u, i). nat (int (retval_i u) - i))") auto

declare dec_loop.simps [simp del]

datatype printed =
    Printed_Nothing
  | Printed_Hex "int list"
  | Printed_Rmask_Bits nat "int list"

definition print_retval :: "int \<Rightarrow> 'a udata_s_scheme \<Rightarrow> error + printed" where
  "print_retval hex_mode u =
     (if retval_i u \<noteq> 0 then
        (if hex_mode \<noteq> 0 then
           (case hex_outer hex_mode u 0 of
              Inl e \<Rightarrow> Inl e
            | Inr vals \<Rightarrow> Inr (Printed_Hex vals))
         else
           (case dec_loop u 0 of
              Inl e \<Rightarrow> Inl e
            | Inr vals \<Rightarrow> Inr (Printed_Rmask_Bits (retval_i u) vals)))
      else Inr Printed_Nothing)"

text \<open>The option switch of \<open>main\<close>: \<open>-L\<close> sets \<open>hex_mode = 1\<close>, \<open>-B\<close> sets \<open>hex_mode = 2\<close>.\<close>

definition HEX_L :: int where
  "HEX_L = 1"

definition HEX_B :: int where
  "HEX_B = 2"

section \<open>Notions used to state the properties\<close>

text \<open>The captured sequence: the first \<open>retval_i\<close> entries of \<open>retval\<close>.\<close>

definition captured :: "'a udata_s_scheme \<Rightarrow> int list" where
  "captured u = take (retval_i u) (retval u)"

definition udata_wf :: "'a udata_s_scheme \<Rightarrow> bool" where
  "udata_wf u = (retval_i u \<le> 256 \<and> length (retval u) = 256)"

text \<open>The TDO bit of a byte, and the bit the next pulse will sample.\<close>

definition tdo_bit :: "u8 \<Rightarrow> int" where
  "tdo_bit b = (if bit b 6 then 1 else 0)"

definition next_tdo :: "world \<Rightarrow> int" where
  "next_tdo s = tdo_bit (readback s (nread s + 2))"

text \<open>The bits a session samples on its pulses that ask for capture (\<open>rmask = 1\<close>).\<close>

fun sampled :: "call list \<Rightarrow> world \<Rightarrow> int list" where
  "sampled [] s = []"
| "sampled (Pulse_Tck tms tdi tdo rmask sync # cs) s =
     (if rmask = 1 then [next_tdo s] else [])
       @ sampled cs (step (Pulse_Tck tms tdi tdo rmask sync) s)"
| "sampled (c # cs) s = sampled cs (step c s)"

text \<open>
  Reading a trace: the bytes written to the device, the direction masks set, and the
  microseconds slept (the sum of the values the \<open>usleep\<close> calls received).
\<close>

fun written :: "event list \<Rightarrow> u8 list" where
  "written [] = []"
| "written (Ftdi_Write_Data bs # es) = bs @ written es"
| "written (e # es) = written es"

fun direction_masks :: "event list \<Rightarrow> u8 list" where
  "direction_masks [] = []"
| "direction_masks (Ftdi_Set_Bitmode m mode # es) = m # direction_masks es"
| "direction_masks (e # es) = direction_masks es"


fun is_pulse_tck :: "call \<Rightarrow> bool" where
  "is_pulse_tck (Pulse_Tck tms tdi tdo rmask sync) = True"
| "is_pulse_tck c = False"

text \<open>One pulse on the wire: the write of three bytes, then the read of three.\<close>

definition pulse_events :: "u8 \<Rightarrow> event list" where
  "pulse_events reg =
     [Ftdi_Write_Data [reg AND NOT MASK_TCK, (reg AND NOT MASK_TCK) OR MASK_TCK,
                       reg AND NOT MASK_TCK],
      Ftdi_Read_Data 3]"


text \<open>
  Packing a list of bits into a number, first bit highest, and cutting a list into
  groups of four: the nibbles of a bit sequence.
\<close>

definition pack_bits :: "int list \<Rightarrow> int" where
  "pack_bits bs = foldl (\<lambda>val b. push_bit 1 val OR b) 0 bs"

fun groups4 :: "'a list \<Rightarrow> 'a list list" where
  "groups4 (a # b # c # d # xs) = [a, b, c, d] # groups4 xs"
| "groups4 xs = []"

definition nibbles :: "int list \<Rightarrow> int list" where
  "nibbles bs = map pack_bits (groups4 bs)"

text \<open>The register after \<open>bb_tms\<close> and after \<open>bb_tdi\<close>.\<close>

definition tms_reg :: "int \<Rightarrow> u8 \<Rightarrow> u8" where
  "tms_reg val reg = (if val \<noteq> 0 then reg OR MASK_TMS else reg AND NOT MASK_TMS)"

definition tdi_reg :: "int \<Rightarrow> u8 \<Rightarrow> u8" where
  "tdi_reg val reg = (if val \<noteq> 0 then reg OR MASK_TDI else reg AND NOT MASK_TDI)"

text \<open>The lines \<open>h_udelay\<close> prints at \<open>verbose >= 3\<close>.\<close>

definition delay_log :: "int \<Rightarrow> message \<Rightarrow> event list" where
  "delay_log v m = (if v \<ge> 3 then [Stderr m] else [])"

text \<open>A call that asks for capture: a clocked-bit exchange with \<open>rmask = 1\<close>.\<close>

fun is_capture :: "call \<Rightarrow> bool" where
  "is_capture (Pulse_Tck tms tdi tdo rmask sync) = (rmask = 1)"
| "is_capture c = False"

text \<open>
  A byte whose 1-bits all lie inside the direction mask \<open>MASK_IO\<close>, and the states in
  which the register, every byte written so far and every direction mask set so far
  are such bytes.
\<close>

definition output_only :: "u8 \<Rightarrow> bool" where
  "output_only b = (b AND NOT MASK_IO = 0)"

definition pins_ok :: "world \<Rightarrow> bool" where
  "pins_ok s =
     (output_only (bb_reg s) \<and> list_all output_only (written (trace s))
      \<and> list_all output_only (direction_masks (trace s)))"

text \<open>
  The entries of \<open>retval\<close> from position \<open>retval_i\<close> on still hold the zero the static
  array starts with.
\<close>

definition fresh_tail :: "'a udata_s_scheme \<Rightarrow> bool" where
  "fresh_tail u = (drop (retval_i u) (retval u) = replicate (length (retval u) - retval_i u) 0)"

section \<open>Example sessions\<close>

text \<open>
  A device that answers every read with zero bytes except the byte at position 2 (the
  third byte of the first pulse), which has TDO set; a clock whose first reading is
  100 microseconds before a full second and whose later readings are 100 microseconds
  after it.
\<close>

definition example_readback :: "nat \<Rightarrow> u8" where
  "example_readback k = (if k = 2 then 0x40 else 0)"

definition example_clock :: "nat \<Rightarrow> timeval" where
  "example_clock k =
     (if k = 0 then \<lparr>tv_sec = 10, tv_usec = 999900\<rparr> else \<lparr>tv_sec = 11, tv_usec = 100\<rparr>)"

definition example_world :: world where
  "example_world = initial_world 0 0 example_readback example_clock"

definition example_world_no_device :: world where
  "example_world_no_device = initial_world 0 (-1) example_readback example_clock"



text \<open>
  Sessions of four, five and eight capturing pulses. In \<open>example_world5\<close> the device
  answers with TDO set on the first and on the fifth pulse.
\<close>

definition four_captures :: "call list" where
  "four_captures = [Pulse_Tck 0 (-1) (-1) 1 0, Pulse_Tck 0 (-1) (-1) 1 0,
                    Pulse_Tck 0 (-1) (-1) 1 0, Pulse_Tck 0 (-1) (-1) 1 0]"

definition eight_captures :: "call list" where
  "eight_captures = four_captures @ four_captures"

definition example_readback5 :: "nat \<Rightarrow> u8" where
  "example_readback5 k = (if k = 2 \<or> k = 14 then 0x40 else 0)"

definition example_world5 :: world where
  "example_world5 =
     run (Pulse_Tck 0 (-1) (-1) 1 0 # four_captures)
       (initial_world 0 0 example_readback5 example_clock)"

definition example_session :: "call list" where
  "example_session = [Setup, Pulse_Tck 1 1 1 1 0, Udelay 10 0 1, Shutdown]"

section \<open>Basic facts\<close>

lemma next_tdo_nonneg: "next_tdo s \<ge> 0"
  by (simp add: next_tdo_def tdo_bit_def)

lemma next_tdo_cases: "next_tdo s = 0 \<or> next_tdo s = 1"
  by (simp add: next_tdo_def tdo_bit_def)

lemma tdo_bit_and: "(if b AND MASK_TDO \<noteq> 0 then 1 else 0) = tdo_bit b"
  using and_exp_eq_0_iff_not_bit [of b 6]
  by (simp add: tdo_bit_def MASK_TDO_def)

lemma tck_or: "(reg AND NOT MASK_TCK) OR MASK_TCK = reg OR MASK_TCK"
  by (simp add: bit_eq_iff bit_simps) blast

lemma tck_low: "(reg AND NOT MASK_TCK) AND MASK_TCK = 0"
  by (simp add: bit_eq_iff bit_simps)

lemma tck_differs: "((reg AND NOT MASK_TCK) OR MASK_TCK) XOR (reg AND NOT MASK_TCK) = MASK_TCK"
  by (simp add: bit_eq_iff bit_simps) blast

lemma bit_MASK_TMS: "bit MASK_TMS k \<longleftrightarrow> k = 7"
  unfolding MASK_TMS_def by (auto simp only: bit_push_bit_iff bit_1_iff possible_bit_word) simp

lemma bit_MASK_TDI: "bit MASK_TDI k \<longleftrightarrow> k = 3"
  unfolding MASK_TDI_def by (auto simp only: bit_push_bit_iff bit_1_iff possible_bit_word) simp

lemma bit_MASK_TDO: "bit MASK_TDO k \<longleftrightarrow> k = 6"
  unfolding MASK_TDO_def by (auto simp only: bit_push_bit_iff bit_1_iff possible_bit_word) simp

lemma bit_MASK_TCK: "bit MASK_TCK k \<longleftrightarrow> k = 5"
  unfolding MASK_TCK_def by (auto simp only: bit_push_bit_iff bit_1_iff possible_bit_word) simp

lemma bit_MASK_IO: "bit MASK_IO k \<longleftrightarrow> k = 7 \<or> k = 3 \<or> k = 5"
  by (simp add: MASK_IO_def bit_or_iff bit_MASK_TMS bit_MASK_TDI bit_MASK_TCK)

lemma bit_tms_reg: "bit (tms_reg v r) k = (if k = 7 then v \<noteq> 0 else bit r k)"
  by (simp add: tms_reg_def bit_or_iff bit_and_iff bit_not_iff bit_MASK_TMS)
     (auto dest: bit_imp_possible_bit)

lemma bit_tdi_reg: "bit (tdi_reg v r) k = (if k = 3 then v \<noteq> 0 else bit r k)"
  by (simp add: tdi_reg_def bit_or_iff bit_and_iff bit_not_iff bit_MASK_TDI)
     (auto dest: bit_imp_possible_bit)

lemma tms_reg_others: "tms_reg v r AND NOT MASK_TMS = r AND NOT MASK_TMS"
  by (simp add: tms_reg_def bit_eq_iff bit_simps) blast


lemma written_append: "written (es @ fs) = written es @ written fs"
  by (induction es rule: written.induct) simp_all

lemma direction_masks_append:
  "direction_masks (es @ fs) = direction_masks es @ direction_masks fs"
  by (induction es rule: direction_masks.induct) simp_all


lemma written_pulse_events: "written (pulse_events reg) = buf_out reg"
  by (simp add: pulse_events_def buf_out_def Let_def tck_or)

lemma pos_part: "(if r > 0 then r else 0) = max 0 (r::int)"
  by simp




lemma written_delay_log: "written (delay_log v m) = []"
  by (simp add: delay_log_def)

subsection \<open>What each function does to the state, in one equation\<close>

lemma bb_pulse_tck_eq:
  "bb_pulse_tck s =
     (next_tdo s, s\<lparr>trace := trace s @ pulse_events (bb_reg s), nread := nread s + 3\<rparr>)"
  by (simp add: bb_pulse_tck_def Let_def buf_out_def buf_in_def emit_def tck_or tdo_bit_and
      next_tdo_def pulse_events_def)

lemma bb_tms_eq: "bb_tms v s = s\<lparr>bb_reg := tms_reg v (bb_reg s)\<rparr>"
  by (simp add: bb_tms_def tms_reg_def)

lemma bb_tdi_eq: "bb_tdi v s = s\<lparr>bb_reg := tdi_reg v (bb_reg s)\<rparr>"
  by (simp add: bb_tdi_def tdi_reg_def)

lemma drive_tdi_eq:
  "drive_tdi tdi s =
     s\<lparr>bitcount_tdi := bitcount_tdi s + (if tdi \<ge> 0 then 1 else 0),
       bb_reg := (if tdi \<ge> 0 then tdi_reg tdi (bb_reg s) else bb_reg s)\<rparr>"
  by (simp add: drive_tdi_def bb_tdi_eq)

lemma capture_tdo_eq:
  "capture_tdo rmask line s =
     s\<lparr>retval := (if rmask = 1 \<and> retval_i s < 256
                  then (retval s)[retval_i s := line] else retval s),
       retval_i := (if rmask = 1 \<and> retval_i s < 256 then retval_i s + 1 else retval_i s)\<rparr>"
  by (simp add: capture_tdo_def)

lemma check_tdo_eq:
  "line \<ge> 0 \<Longrightarrow> check_tdo tdo line rc s =
     (if tdo \<ge> 0 \<and> tdo \<noteq> line then -1 else rc,
      s\<lparr>bitcount_tdo := bitcount_tdo s + (if tdo \<ge> 0 then 1 else 0)\<rparr>)"
  by (simp add: check_tdo_def)

lemma next_tdo_update:
  "next_tdo (s\<lparr>bitcount_tdi := x\<rparr>) = next_tdo s"
  "next_tdo (s\<lparr>bb_reg := y\<rparr>) = next_tdo s"
  by (simp_all add: next_tdo_def)

lemma h_pulse_tck_eq:
  "h_pulse_tck tms tdi tdo rmask sync s =
     (let reg = (if tdi \<ge> 0 then tdi_reg tdi (tms_reg tms (bb_reg s))
                 else tms_reg tms (bb_reg s));
          line = next_tdo s;
          rc = (if tdo \<ge> 0 \<and> tdo \<noteq> line then -1 else line)
      in (rc,
          s\<lparr>bb_reg := reg,
            bitcount_tdi := bitcount_tdi s + (if tdi \<ge> 0 then 1 else 0),
            nread := nread s + 3,
            retval := (if rmask = 1 \<and> retval_i s < 256
                       then (retval s)[retval_i s := line] else retval s),
            retval_i := (if rmask = 1 \<and> retval_i s < 256
                         then retval_i s + 1 else retval_i s),
            bitcount_tdo := bitcount_tdo s + (if tdo \<ge> 0 then 1 else 0),
            trace := trace s @ pulse_events reg
                     @ (if verbose s \<ge> 4
                        then [Stderr (Msg_Pulse tms tdi tdo line rmask rc)] else []),
            clockcount := clockcount s + 1\<rparr>))"
proof (cases "verbose s \<ge> 4")
  case True
  then show ?thesis
    by (simp add: h_pulse_tck_def Let_def bb_tms_eq drive_tdi_eq bb_pulse_tck_eq
        capture_tdo_eq check_tdo_eq next_tdo_nonneg next_tdo_update emit_def)
next
  case False
  then show ?thesis
    by (simp add: h_pulse_tck_def Let_def bb_tms_eq drive_tdi_eq bb_pulse_tck_eq
        capture_tdo_eq check_tdo_eq next_tdo_nonneg next_tdo_update emit_def)
qed

lemma tck_loop_eq:
  "tck_loop n s =
     s\<lparr>trace := trace s @ concat (replicate (nat n) (pulse_events (bb_reg s))),
       nread := nread s + 3 * nat n\<rparr>"
proof (induction n s rule: tck_loop.induct)
  case (1 num_tck s)
  show ?case
  proof (cases "num_tck > 0")
    case True
    then have n: "nat num_tck = Suc (nat (num_tck - 1))" by simp
    show ?thesis
      using True "1.IH" [OF True]
      by (subst tck_loop.simps) (simp add: bb_pulse_tck_eq n)
  next
    case False
    then show ?thesis by (subst tck_loop.simps) simp
  qed
qed

lemma clocked_delay_eq:
  "clocked_delay usecs tms n s =
     (let r = subtract_elapsed usecs (clock s (nclock s)) (clock s (nclock s + 1));
          reg = tms_reg tms (bb_reg s)
      in (r, s\<lparr>bb_reg := reg, nread := nread s + 3 * nat n, nclock := nclock s + 2,
               trace := trace s @ [Get_Time_Of_Day]
                        @ concat (replicate (nat n) (pulse_events reg))
                        @ [Get_Time_Of_Day]
                        @ delay_log (verbose s) (Msg_Delay_After_Tck (if r > 0 then r else 0))\<rparr>))"
  by (simp add: clocked_delay_def gettimeofday_def tck_loop_eq bb_tms_eq emit_def Let_def
      delay_log_def)

lemma h_udelay_eq:
  "h_udelay usecs tms n s =
     (if n > 0 then
        (let r = subtract_elapsed usecs (clock s (nclock s)) (clock s (nclock s + 1));
             reg = tms_reg tms (bb_reg s)
         in s\<lparr>bb_reg := reg, nread := nread s + 3 * nat n, nclock := nclock s + 2,
              trace := trace s @ delay_log (verbose s) (Msg_Delay usecs tms n)
                       @ [Get_Time_Of_Day] @ concat (replicate (nat n) (pulse_events reg))
                       @ [Get_Time_Of_Day]
                       @ delay_log (verbose s) (Msg_Delay_After_Tck (if r > 0 then r else 0))
                       @ (if r > 0 then [Usleep (word_of_int r)] else [])\<rparr>)
      else s\<lparr>trace := trace s @ delay_log (verbose s) (Msg_Delay usecs tms n)
                       @ (if usecs > 0 then [Usleep (word_of_int usecs)] else [])\<rparr>)"
  by (simp add: h_udelay_def clocked_delay_eq usleep_def emit_def Let_def delay_log_def)


lemma h_setup_eq:
  "h_setup s =
     (0, if usb_open_result s < 0
         then s\<lparr>trace := trace s @ (if verbose s \<ge> 2 then [Stderr Msg_Setup] else [])
                    @ [Ftdi_Init, Ftdi_Usb_Open 0x0403 0x6001, Stdout Msg_Cant_Open_Device]\<rparr>
         else s\<lparr>bb_reg := 0,
                trace := trace s @ (if verbose s \<ge> 2 then [Stderr Msg_Setup] else [])
                    @ [Ftdi_Init, Ftdi_Usb_Open 0x0403 0x6001, Ftdi_Set_Baudrate BAUDRATE,
                       Ftdi_Set_Latency_Timer LATENCY, Ftdi_Set_Bitmode MASK_IO 0x4]\<rparr>)"
  by (simp add: h_setup_def bb_setup_def emit_def Let_def)

lemma h_shutdown_eq:
  "h_shutdown s =
     (0, s\<lparr>trace := trace s @ (if verbose s \<ge> 2 then [Stderr Msg_Shutdown] else [])
                 @ [Ftdi_Set_Bitmode 0 0]\<rparr>)"
  by (simp add: h_shutdown_def bb_shutdown_def emit_def Let_def)

lemma clockcount_step:
  "clockcount (step c s) = clockcount s + (if is_pulse_tck c then 1 else 0)"
  by (cases c)
     (simp_all add: h_setup_eq h_shutdown_eq h_udelay_eq h_pulse_tck_eq h_pulse_sck_def
       h_set_trst_def h_set_frequency_def emit_def Let_def)

lemma clockcount_run:
  "clockcount (run cs s) = clockcount s + int (length (filter is_pulse_tck cs))"
  by (induction cs arbitrary: s) (simp_all add: clockcount_step)

lemma capture_step:
  assumes "udata_wf s"
  shows "udata_wf (step c s) \<and> captured (step c s) = take 256 (captured s @ sampled [c] s)"
proof (cases c)
  case (Pulse_Tck tms tdi tdo rmask sync)
  from assms have l: "length (retval s) = 256" and i: "retval_i s \<le> 256"
    by (simp_all add: udata_wf_def)
  show ?thesis
  proof (cases "rmask = 1 \<and> retval_i s < 256")
    case True
    then have "take (Suc (retval_i s)) ((retval s)[retval_i s := next_tdo s])
        = take (retval_i s) (retval s) @ [next_tdo s]"
      using l by (simp add: take_Suc_conv_app_nth)
    moreover from True obtain k where "256 - retval_i s = Suc k"
      by (cases "256 - retval_i s") auto
    ultimately show ?thesis
      using True l unfolding Pulse_Tck
      by (simp add: h_pulse_tck_eq Let_def udata_wf_def captured_def)
  next
    case False
    with l i show ?thesis
      unfolding Pulse_Tck
      by (auto simp add: h_pulse_tck_eq Let_def udata_wf_def captured_def)
  qed
next
  case Setup
  with assms show ?thesis
    by (simp add: h_setup_eq udata_wf_def captured_def)
next
  case Shutdown
  with assms show ?thesis
    by (simp add: h_shutdown_eq udata_wf_def captured_def)
next
  case (Udelay usecs tms n)
  with assms show ?thesis
    by (simp add: h_udelay_eq Let_def udata_wf_def captured_def)
next
  case Pulse_Sck
  with assms show ?thesis
    by (simp add: h_pulse_sck_def emit_def udata_wf_def captured_def)
next
  case (Set_Trst v)
  with assms show ?thesis
    by (simp add: h_set_trst_def emit_def udata_wf_def captured_def)
next
  case (Set_Frequency v)
  with assms show ?thesis
    by (simp add: h_set_frequency_def emit_def udata_wf_def captured_def)
qed

lemma sampled_Cons: "sampled (c # cs) s = sampled [c] s @ sampled cs (step c s)"
  by (cases c) simp_all

lemma take_take_append: "take n (take n xs @ ys) = take n (xs @ ys)"
  by (cases "n \<le> length xs") (simp_all add: min_def)

lemma capture_run:
  "udata_wf s \<Longrightarrow>
     udata_wf (run cs s) \<and> captured (run cs s) = take 256 (captured s @ sampled cs s)"
proof (induction cs arbitrary: s)
  case Nil
  then show ?case by (simp add: udata_wf_def captured_def)
next
  case (Cons c cs)
  from capture_step [OF Cons.prems, of c]
  have wf: "udata_wf (step c s)"
    and cap: "captured (step c s) = take 256 (captured s @ sampled [c] s)" by simp_all
  from Cons.IH [OF wf] have wf': "udata_wf (run (c # cs) s)"
    and "captured (run (c # cs) s)
         = take 256 (captured (step c s) @ sampled cs (step c s))" by simp_all
  then have "captured (run (c # cs) s)
         = take 256 ((captured s @ sampled [c] s) @ sampled cs (step c s))"
    by (simp only: cap take_take_append)
  then have "captured (run (c # cs) s) = take 256 (captured s @ sampled (c # cs) s)"
    by (simp only: sampled_Cons [of c cs] append_assoc)
  with wf' show ?case by simp
qed


lemma length_sampled: "length (sampled cs s) = length (filter is_capture cs)"
proof (induction cs arbitrary: s)
  case Nil
  then show ?case by simp
next
  case (Cons c cs)
  then show ?case by (cases c) simp_all
qed

lemma example_world_simps:
  "verbose example_world = 0" "clockcount example_world = 0"
  "bitcount_tdi example_world = 0" "bitcount_tdo example_world = 0"
  "retval_i example_world = 0" "retval example_world = replicate 256 0"
  "bb_reg example_world = 0" "nread example_world = 0" "nclock example_world = 0"
  "trace example_world = []" "readback example_world = example_readback"
  "clock example_world = example_clock" "usb_open_result example_world = 0"
  by (simp_all add: example_world_def initial_world_def)

subsection \<open>The hex loops\<close>

lemma hex_inner_step:
  "j < i + 4 \<Longrightarrow>
   retval_read u (if m > 1 then j else int (retval_i u) - j - 1) = Inr b \<Longrightarrow>
   hex_inner m u i j val = hex_inner m u i (j + 1) (push_bit 1 val OR b)"
  by (subst hex_inner.simps) simp

lemma hex_inner_done: "j = i + 4 \<Longrightarrow> hex_inner m u i j val = Inr val"
  by (subst hex_inner.simps) simp

lemma hex_inner_scan:
  assumes reads: "\<And>j. j < length xs \<Longrightarrow>
      retval_read u (if m > 1 then int j else int (retval_i u) - int j - 1) = Inr (xs ! j)"
    and i: "i + 4 \<le> length xs"
  shows "hex_inner m u (int i) (int i) 0
         = Inr (pack_bits [xs ! i, xs ! (i + 1), xs ! (i + 2), xs ! (i + 3)])"
proof -
  have r0: "retval_read u (if m > 1 then int i else int (retval_i u) - int i - 1)
              = Inr (xs ! i)"
    using reads [of i] i by simp
  have r1: "retval_read u (if m > 1 then int i + 1 else int (retval_i u) - (int i + 1) - 1)
              = Inr (xs ! (i + 1))"
    using reads [of "i + 1"] i by (auto simp add: algebra_simps split: if_splits)
  have r2: "retval_read u (if m > 1 then int i + 1 + 1
                           else int (retval_i u) - (int i + 1 + 1) - 1)
              = Inr (xs ! (i + 2))"
    using reads [of "i + 2"] i by (auto simp add: algebra_simps split: if_splits)
  have r3: "retval_read u (if m > 1 then int i + 1 + 1 + 1
                           else int (retval_i u) - (int i + 1 + 1 + 1) - 1)
              = Inr (xs ! (i + 3))"
    using reads [of "i + 3"] i by (auto simp add: algebra_simps split: if_splits)
  have "hex_inner m u (int i) (int i) 0
          = hex_inner m u (int i) (int i + 1) (push_bit 1 0 OR xs ! i)"
    by (rule hex_inner_step [OF _ r0]) simp
  also have "\<dots> = hex_inner m u (int i) (int i + 1 + 1)
      (push_bit 1 (push_bit 1 0 OR xs ! i) OR xs ! (i + 1))"
    by (rule hex_inner_step [OF _ r1]) simp
  also have "\<dots> = hex_inner m u (int i) (int i + 1 + 1 + 1)
      (push_bit 1 (push_bit 1 (push_bit 1 0 OR xs ! i) OR xs ! (i + 1)) OR xs ! (i + 2))"
    by (rule hex_inner_step [OF _ r2]) simp
  also have "\<dots> = hex_inner m u (int i) (int i + 1 + 1 + 1 + 1)
      (push_bit 1 (push_bit 1 (push_bit 1 (push_bit 1 0 OR xs ! i) OR xs ! (i + 1))
         OR xs ! (i + 2)) OR xs ! (i + 3))"
    by (rule hex_inner_step [OF _ r3]) simp
  also have "\<dots> = Inr (push_bit 1 (push_bit 1 (push_bit 1 (push_bit 1 0 OR xs ! i)
         OR xs ! (i + 1)) OR xs ! (i + 2)) OR xs ! (i + 3))"
    by (rule hex_inner_done) simp
  also have "\<dots> = Inr (pack_bits [xs ! i, xs ! (i + 1), xs ! (i + 2), xs ! (i + 3)])"
    by (simp only: pack_bits_def foldl.simps)
  finally show ?thesis .
qed

lemma drop_four:
  "i + 4 \<le> length xs \<Longrightarrow>
     drop i xs = xs ! i # xs ! (i + 1) # xs ! (i + 2) # xs ! (i + 3) # drop (i + 4) xs"
  by (simp add: Cons_nth_drop_Suc numeral_eq_Suc)

lemma hex_outer_scan:
  assumes reads: "\<And>j. j < length xs \<Longrightarrow>
      retval_read u (if m > 1 then int j else int (retval_i u) - int j - 1) = Inr (xs ! j)"
    and len: "4 dvd length xs" "retval_i u \<le> length xs" "length xs < retval_i u + 4"
  shows "4 dvd i \<Longrightarrow> i \<le> length xs \<Longrightarrow> hex_outer m u (int i) = Inr (nibbles (drop i xs))"
proof (induction "length xs - i" arbitrary: i rule: less_induct)
  case less
  show ?case
  proof (cases "i < retval_i u")
    case True
    with less.prems len have i4: "i + 4 \<le> length xs"
      by presburger
    have inner: "hex_inner m u (int i) (int i) 0
         = Inr (pack_bits [xs ! i, xs ! (i + 1), xs ! (i + 2), xs ! (i + 3)])"
      by (rule hex_inner_scan [OF reads i4])
    have "hex_outer m u (int (i + 4)) = Inr (nibbles (drop (i + 4) xs))"
      using less.prems i4 by (intro less.hyps) auto
    then have rest: "hex_outer m u (int i + 4) = Inr (nibbles (drop (i + 4) xs))"
      by (simp add: add.commute)
    show ?thesis
      using True
      by (subst hex_outer.simps) (simp add: inner rest drop_four [OF i4] nibbles_def)
  next
    case False
    with less.prems len have "i = length xs"
      by presburger
    with False show ?thesis
      by (subst hex_outer.simps) (simp add: nibbles_def)
  qed
qed

lemma length_groups4: "length (groups4 xs) = length xs div 4"
  by (induction xs rule: groups4.induct) simp_all

lemma length_nibbles: "length (nibbles xs) = length xs div 4"
  by (simp add: nibbles_def length_groups4)

lemma hex_outer_forward:
  assumes m: "m > 1"
    and len: "4 * ((retval_i u + 3) div 4) \<le> length (retval u)"
  shows "hex_outer m u 0 = Inr (nibbles (take (4 * ((retval_i u + 3) div 4)) (retval u)))"
proof -
  let ?N = "4 * ((retval_i u + 3) div 4)"
  let ?xs = "take ?N (retval u)"
  have l: "length ?xs = ?N" using len by simp
  have reads: "retval_read u (if m > 1 then int j else int (retval_i u) - int j - 1)
      = Inr (?xs ! j)" if "j < length ?xs" for j
    using that m len by (simp add: retval_read_def)
  have a: "4 dvd length ?xs" unfolding l by simp
  have b: "retval_i u \<le> length ?xs" unfolding l by presburger
  have c: "length ?xs < retval_i u + 4" unfolding l by presburger
  from hex_outer_scan [of ?xs u m 0, OF reads a b c] show ?thesis by simp
qed

lemma hex_outer_backward:
  assumes m: "\<not> m > 1"
    and d: "4 dvd retval_i u"
    and len: "retval_i u \<le> length (retval u)"
  shows "hex_outer m u 0 = Inr (nibbles (rev (captured u)))"
proof -
  let ?xs = "rev (captured u)"
  have l: "length ?xs = retval_i u" using len by (simp add: captured_def)
  have reads: "retval_read u (if m > 1 then int j else int (retval_i u) - int j - 1)
      = Inr (?xs ! j)" if "j < length ?xs" for j
  proof -
    from that l have j: "j < retval_i u" by simp
    then have k: "nat (int (retval_i u) - int j - 1) = retval_i u - Suc j" by arith
    from j len m k show ?thesis
      by (simp add: retval_read_def captured_def rev_nth)
  qed
  have a: "4 dvd length ?xs" using d by (simp only: l)
  have b: "retval_i u \<le> length ?xs" by (simp only: l)
  have c: "length ?xs < retval_i u + 4" unfolding l by simp
  from hex_outer_scan [of ?xs u m 0, OF reads a b c] show ?thesis by simp
qed

lemma pack_bits_nibble:
  "(a = 0 \<or> a = 1) \<and> (b = 0 \<or> b = 1) \<and> (c = 0 \<or> c = 1) \<and> (d = 0 \<or> d = 1) \<Longrightarrow>
     pack_bits [a, b, c, d] = 8 * a + 4 * b + 2 * c + d"
  by (auto simp add: pack_bits_def)

lemma print_retval_hex:
  "hex_mode \<noteq> 0 \<Longrightarrow> hex_outer hex_mode u 0 = Inr vals \<Longrightarrow>
     print_retval hex_mode u = Inr (if retval_i u = 0 then Printed_Nothing else Printed_Hex vals)"
  by (simp add: print_retval_def)

lemma eight_eval:
  "retval_i (run eight_captures example_world) = 8
   \<and> length (retval (run eight_captures example_world)) = 256
   \<and> captured (run eight_captures example_world) = [1, 0, 0, 0, 0, 0, 0, 0]
   \<and> nibbles (rev [1, 0, 0, 0, 0, 0, 0, 0]) = [0, 1]
   \<and> nibbles [1, 0, 0, 0, 0, 0, 0, 0] = [8, 0]"
  by code_simp

lemma world5_eval:
  "udata_wf example_world5 \<and> fresh_tail example_world5
   \<and> retval_i example_world5 = 5 \<and> captured example_world5 = [1, 0, 0, 0, 1]
   \<and> nibbles ([1, 0, 0, 0, 1] @ replicate 3 0) = [8, 8]"
  by code_simp

subsection \<open>Bytes inside the direction mask, and the unwritten tail of the array\<close>

lemma output_only_iff: "output_only b \<longleftrightarrow> (\<forall>k. bit b k \<longrightarrow> k = 7 \<or> k = 3 \<or> k = 5)"
proof
  assume o: "output_only b"
  show "\<forall>k. bit b k \<longrightarrow> k = 7 \<or> k = 3 \<or> k = 5"
  proof (intro allI impI)
    fix k
    assume k: "bit b k"
    from o have "\<not> bit (b AND NOT MASK_IO) k"
      by (simp add: output_only_def)
    with k bit_imp_le_length [OF k] show "k = 7 \<or> k = 3 \<or> k = 5"
      by (simp add: bit_and_iff bit_not_iff bit_MASK_IO)
  qed
next
  assume a: "\<forall>k. bit b k \<longrightarrow> k = 7 \<or> k = 3 \<or> k = 5"
  show "output_only b"
    unfolding output_only_def
  proof (rule bit_word_eqI)
    fix n
    assume "n < LENGTH(8)"
    with a show "bit (b AND NOT MASK_IO) n = bit (0 :: u8) n"
      by (auto simp add: bit_and_iff bit_not_iff bit_MASK_IO)
  qed
qed

lemma output_only_0: "output_only 0"
  by (simp add: output_only_iff)

lemma output_only_MASK_IO: "output_only MASK_IO"
  by (simp add: output_only_iff bit_MASK_IO)

lemma output_only_tms_reg: "output_only r \<Longrightarrow> output_only (tms_reg v r)"
  by (auto simp add: output_only_iff bit_tms_reg)

lemma output_only_tdi_reg: "output_only r \<Longrightarrow> output_only (tdi_reg v r)"
  by (auto simp add: output_only_iff bit_tdi_reg)

lemma output_only_not_tdo: "output_only b \<Longrightarrow> b AND MASK_TDO = 0"
  by (auto simp add: output_only_iff bit_eq_iff [where ?'a = "8 word"] bit_and_iff bit_MASK_TDO)

lemma output_only_buf_out: "output_only r \<Longrightarrow> list_all output_only (buf_out r)"
  by (auto simp add: buf_out_def Let_def output_only_iff bit_and_iff bit_or_iff bit_not_iff
      bit_MASK_TCK)

lemma written_pulses_ok:
  "output_only r \<Longrightarrow> list_all output_only (written (concat (replicate n (pulse_events r))))"
  by (induction n) (simp_all add: written_append written_pulse_events output_only_buf_out)

lemma direction_masks_pulses:
  "direction_masks (concat (replicate n (pulse_events r))) = []"
  by (induction n) (simp_all add: pulse_events_def)

lemma direction_masks_pulse_events: "direction_masks (pulse_events r) = []"
  by (simp add: pulse_events_def)

lemma direction_masks_delay_log: "direction_masks (delay_log v m) = []"
  by (simp add: delay_log_def)

lemma pins_ok_step: "pins_ok s \<Longrightarrow> pins_ok (step c s)"
proof (cases c)
  case Setup
  assume "pins_ok s"
  then show ?thesis
    unfolding Setup
    by (simp add: pins_ok_def h_setup_eq written_append direction_masks_append
        output_only_0 output_only_MASK_IO)
next
  case Shutdown
  assume "pins_ok s"
  then show ?thesis
    unfolding Shutdown
    by (simp add: pins_ok_def h_shutdown_eq written_append direction_masks_append
        output_only_0)
next
  case (Udelay usecs tms n)
  assume "pins_ok s"
  then show ?thesis
    unfolding Udelay
    by (simp add: pins_ok_def h_udelay_eq Let_def written_append direction_masks_append
        written_delay_log direction_masks_delay_log written_pulses_ok direction_masks_pulses
        output_only_tms_reg)
next
  case (Pulse_Tck tms tdi tdo rmask sync)
  assume "pins_ok s"
  then show ?thesis
    unfolding Pulse_Tck
    by (simp add: pins_ok_def h_pulse_tck_eq Let_def written_append direction_masks_append
        written_pulse_events output_only_buf_out output_only_tms_reg output_only_tdi_reg
        direction_masks_pulse_events)
next
  case Pulse_Sck
  assume "pins_ok s"
  then show ?thesis
    unfolding Pulse_Sck
    by (simp add: pins_ok_def h_pulse_sck_def emit_def written_append direction_masks_append)
next
  case (Set_Trst v)
  assume "pins_ok s"
  then show ?thesis
    unfolding Set_Trst
    by (simp add: pins_ok_def h_set_trst_def emit_def written_append direction_masks_append)
next
  case (Set_Frequency v)
  assume "pins_ok s"
  then show ?thesis
    unfolding Set_Frequency
    by (simp add: pins_ok_def h_set_frequency_def emit_def written_append
        direction_masks_append)
qed

lemma pins_ok_run: "pins_ok s \<Longrightarrow> pins_ok (run cs s)"
  by (induction cs arbitrary: s) (simp_all add: pins_ok_step)

lemma pins_ok_initial: "pins_ok (initial_world v rc rb clk)"
  by (simp add: pins_ok_def initial_world_def output_only_0)

lemma list_all_output_only:
  "list_all output_only bs \<Longrightarrow>
     list_all (\<lambda>b. b AND NOT MASK_IO = 0 \<and> b AND MASK_TDO = 0) bs"
  by (induction bs) (simp_all add: output_only_not_tdo, simp add: output_only_def)

lemma fresh_tail_step:
  assumes "udata_wf s" "fresh_tail s"
  shows "fresh_tail (step c s)"
proof (cases c)
  case (Pulse_Tck tms tdi tdo rmask sync)
  show ?thesis
  proof (cases "rmask = 1 \<and> retval_i s < 256")
    case True
    with assms have i: "retval_i s < length (retval s)" by (simp add: udata_wf_def)
    have "drop (Suc (retval_i s)) (retval s) = drop 1 (drop (retval_i s) (retval s))"
      by simp
    also have "\<dots> = replicate (length (retval s) - Suc (retval_i s)) 0"
      using assms(2) by (simp add: fresh_tail_def)
    finally show ?thesis
      using True i unfolding Pulse_Tck
      by (simp add: h_pulse_tck_eq Let_def fresh_tail_def)
  next
    case False
    with assms show ?thesis
      unfolding Pulse_Tck
      by (auto simp add: h_pulse_tck_eq Let_def fresh_tail_def)
  qed
next
  case Setup
  with assms show ?thesis by (simp add: h_setup_eq fresh_tail_def)
next
  case Shutdown
  with assms show ?thesis by (simp add: h_shutdown_eq fresh_tail_def)
next
  case (Udelay usecs tms n)
  with assms show ?thesis by (simp add: h_udelay_eq Let_def fresh_tail_def)
next
  case Pulse_Sck
  with assms show ?thesis by (simp add: h_pulse_sck_def emit_def fresh_tail_def)
next
  case (Set_Trst v)
  with assms show ?thesis by (simp add: h_set_trst_def emit_def fresh_tail_def)
next
  case (Set_Frequency v)
  with assms show ?thesis by (simp add: h_set_frequency_def emit_def fresh_tail_def)
qed

lemma fresh_tail_run:
  "udata_wf s \<Longrightarrow> fresh_tail s \<Longrightarrow> fresh_tail (run cs s)"
proof (induction cs arbitrary: s)
  case Nil
  then show ?case by simp
next
  case (Cons c cs)
  from capture_step [OF Cons.prems(1), of c] have "udata_wf (step c s)" by simp
  moreover from fresh_tail_step [OF Cons.prems] have "fresh_tail (step c s)" .
  ultimately show ?case using Cons.IH by simp
qed

lemma fresh_tail_padding:
  assumes "fresh_tail u" "retval_i u \<le> n" "n \<le> length (retval u)"
  shows "take n (retval u) = captured u @ replicate (n - retval_i u) 0"
proof -
  have "take n (retval u) = take n (take (retval_i u) (retval u) @ drop (retval_i u) (retval u))"
    by simp
  also have "\<dots> = take n (captured u @ replicate (length (retval u) - retval_i u) 0)"
    using assms(1) by (simp only: fresh_tail_def captured_def)
  also have "\<dots> = captured u @ replicate (n - retval_i u) 0"
    using assms(2,3) by (simp add: captured_def min_def)
  finally show ?thesis .
qed

lemma example_session_eval:
  "written (trace (run example_session example_world)) = [0x88, 0xA8, 0x88, 0x08, 0x28, 0x08]
   \<and> direction_masks (trace (run example_session example_world)) = [0xA8, 0]
   \<and> MASK_IO = 0xA8 \<and> MASK_TDO = 0x40"
  by code_simp

section \<open>Properties\<close>

text \<open>
  C1. Whatever the pin register holds, one call of \<open>bb_pulse_tck\<close> hands exactly three
  bytes to the device, in this order: the register with the clock bit cleared, that
  byte with the clock bit set, and the first byte again. The first byte has TCK clear, the
  second differs from it in the TCK bit and in nothing else. The value returned is the TDO
  bit (bit 6) of the third byte read back, \<open>buf_in[2]\<close>: 1 if set, 0 if clear. The register
  itself is left as it was.
\<close>

theorem bb_pulse_tck_three_phases:
  "(let b = bb_reg s AND NOT MASK_TCK; (tdo, s') = bb_pulse_tck s in
      trace s' = trace s @ [Ftdi_Write_Data [b, b OR MASK_TCK, b], Ftdi_Read_Data 3]
    \<and> b AND MASK_TCK = 0
    \<and> (b OR MASK_TCK) XOR b = MASK_TCK
    \<and> tdo = (if bit (buf_in s ! 2) 6 then 1 else 0)
    \<and> buf_in s ! 2 = readback s (nread s + 2)
    \<and> bb_reg s' = bb_reg s)"
  by (simp add: bb_pulse_tck_eq pulse_events_def tck_low tck_differs next_tdo_def tdo_bit_def
      buf_in_def)

theorem bb_pulse_tck_three_phases_witness:
  "bb_pulse_tck (example_world\<lparr>bb_reg := 0xA8\<rparr>) =
     (1, example_world\<lparr>bb_reg := 0xA8, nread := 3,
           trace := [Ftdi_Write_Data [0x88, 0xA8, 0x88], Ftdi_Read_Data 3]\<rparr>)"
  using bb_pulse_tck_three_phases [of "example_world\<lparr>bb_reg := 0xA8\<rparr>"]
  by (simp add: bb_pulse_tck_eq example_world_def initial_world_def next_tdo_def tdo_bit_def
      example_readback_def pulse_events_def MASK_TCK_def)

text \<open>
  C2 (as amended). When the number of captured bits is a multiple of 4, both hex modes
  print one value per group of four. \<open>-B\<close> (\<open>hex_mode = 2\<close>) packs the captured sequence
  in capture order, the first captured bit of a group being the high bit of its value.
  \<open>-L\<close> (\<open>hex_mode = 1\<close>) packs the whole captured sequence read backwards: the last
  captured bit is the high bit of the first value printed, so the groups come out in
  reverse capture order and the first captured bit is the lowest bit of the last value.
  For the one group 1,0,0,0 this is \<open>0x1\<close> under \<open>-L\<close> and \<open>0x8\<close> under \<open>-B\<close>.
\<close>

theorem hex_modes_on_whole_groups:
  assumes "4 dvd retval_i u" and "retval_i u \<le> length (retval u)"
  shows "print_retval HEX_L u
           = Inr (if retval_i u = 0 then Printed_Nothing
                  else Printed_Hex (nibbles (rev (captured u))))
       \<and> print_retval HEX_B u
           = Inr (if retval_i u = 0 then Printed_Nothing
                  else Printed_Hex (nibbles (captured u)))
       \<and> length (nibbles (captured u)) = retval_i u div 4
       \<and> ((a = 0 \<or> a = 1) \<and> (b = 0 \<or> b = 1) \<and> (c = 0 \<or> c = 1) \<and> (d = 0 \<or> d = 1)
            \<longrightarrow> nibbles [a, b, c, d] = [8 * a + 4 * b + 2 * c + d])"
proof -
  have n: "4 * ((retval_i u + 3) div 4) = retval_i u"
    using assms(1) by presburger
  have "hex_outer HEX_B u 0 = Inr (nibbles (take (4 * ((retval_i u + 3) div 4)) (retval u)))"
    by (rule hex_outer_forward) (simp_all add: HEX_B_def n assms)
  then have b: "hex_outer HEX_B u 0 = Inr (nibbles (captured u))"
    by (simp only: n captured_def)
  have l: "hex_outer HEX_L u 0 = Inr (nibbles (rev (captured u)))"
    by (rule hex_outer_backward) (simp_all add: HEX_L_def assms)
  have len: "length (nibbles (captured u)) = retval_i u div 4"
    using assms(2) by (simp add: length_nibbles captured_def)
  show ?thesis
    using print_retval_hex [OF _ l] print_retval_hex [OF _ b] len
    by (simp add: HEX_L_def HEX_B_def nibbles_def pack_bits_nibble)
qed

theorem hex_modes_on_whole_groups_witness:
  "4 dvd retval_i (run eight_captures example_world)
   \<and> retval_i (run eight_captures example_world)
        \<le> length (retval (run eight_captures example_world))
   \<and> captured (run eight_captures example_world) = [1, 0, 0, 0, 0, 0, 0, 0]
   \<and> print_retval HEX_L (run eight_captures example_world) = Inr (Printed_Hex [0, 1])
   \<and> print_retval HEX_B (run eight_captures example_world) = Inr (Printed_Hex [8, 0])"
proof -
  have d: "4 dvd retval_i (run eight_captures example_world)"
    and l: "retval_i (run eight_captures example_world)
        \<le> length (retval (run eight_captures example_world))"
    using eight_eval by simp_all
  show ?thesis
    using hex_modes_on_whole_groups [OF d l] eight_eval by simp
qed

text \<open>
  C2 as stated fails: four capturing pulses that sample 1,0,0,0 print \<open>0x1\<close> under
  \<open>-L\<close> (not \<open>0x8\<close>) and \<open>0x8\<close> under \<open>-B\<close> (not \<open>0x1\<close>).
\<close>

theorem hex_little_endian_counterexample:
  "captured (run four_captures example_world) = [1, 0, 0, 0]
   \<and> print_retval HEX_L (run four_captures example_world) = Inr (Printed_Hex [1])
   \<and> print_retval HEX_L (run four_captures example_world) \<noteq> Inr (Printed_Hex [8])
   \<and> print_retval HEX_B (run four_captures example_world) = Inr (Printed_Hex [8])
   \<and> print_retval HEX_B (run four_captures example_world) \<noteq> Inr (Printed_Hex [1])"
  by code_simp

text \<open>
  C3 (as amended). When \<open>ftdi_usb_open\<close> fails, \<open>h_setup\<close> prints
  \<open>Can't open device\<close>, configures nothing and leaves the register alone, and returns 0:
  the same value as with a device. Nothing in this layer then keeps a later
  \<open>h_pulse_tck\<close> from handing its three bytes to \<open>ftdi_write_data\<close>.
\<close>

theorem h_setup_without_device:
  assumes "usb_open_result s < 0"
  shows "h_setup s =
           (0, s\<lparr>trace := trace s @ (if verbose s \<ge> 2 then [Stderr Msg_Setup] else [])
                    @ [Ftdi_Init, Ftdi_Usb_Open 0x0403 0x6001, Stdout Msg_Cant_Open_Device]\<rparr>)
       \<and> fst (h_setup s) = fst (h_setup (s\<lparr>usb_open_result := 0\<rparr>))
       \<and> written (trace (snd (h_pulse_tck tms tdi tdo rmask sync (snd (h_setup s)))))
           = written (trace s)
             @ buf_out (if tdi \<ge> 0 then tdi_reg tdi (tms_reg tms (bb_reg s))
                        else tms_reg tms (bb_reg s))"
  using assms
  by (simp add: h_setup_eq h_pulse_tck_eq Let_def written_append written_pulse_events)

theorem h_setup_without_device_witness:
  "usb_open_result example_world_no_device < 0
   \<and> h_setup example_world_no_device =
       (0, example_world_no_device
             \<lparr>trace := [Ftdi_Init, Ftdi_Usb_Open 0x0403 0x6001, Stdout Msg_Cant_Open_Device]\<rparr>)"
proof -
  have n: "usb_open_result example_world_no_device < 0"
    and v: "verbose example_world_no_device = 0"
    and t: "trace example_world_no_device = []"
    by (simp_all add: example_world_no_device_def initial_world_def)
  from h_setup_without_device [OF n, of 0 0 0 0 0] n v t show ?thesis by simp
qed

text \<open>
  C3 as stated fails: without a device the setup callback returns 0, as it does with one,
  and a session that goes on still writes the three bytes of a pulse.
\<close>

theorem setup_failure_counterexample:
  "usb_open_result example_world_no_device < 0
   \<and> fst (h_setup example_world_no_device) = 0
   \<and> fst (h_setup example_world_no_device) = fst (h_setup example_world)
   \<and> written (trace (run [Setup, Pulse_Tck 1 1 (-1) 0 0] example_world_no_device))
       = [0x88, 0xA8, 0x88]"
  by code_simp




text \<open>
  C5. Every call of \<open>h_pulse_tck\<close>: TMS (bit 7) of the register is set to the given
  level; when \<open>tdi >= 0\<close> the TDI counter grows by exactly one and TDI (bit 3) is set to the
  given level, otherwise both are as before; one pulse is issued and the bit sampled is 0
  or 1; when \<open>tdo >= 0\<close> the TDO counter grows by exactly one and the result is \<open>-1\<close> if the
  expected and the sampled bit differ and the sampled bit if not, otherwise the counter
  is as before and the result is the sampled bit. A mismatch does not stop the call: the
  clock counter grows by one in every case.
\<close>

theorem h_pulse_tck_contract:
  "(let (rc, s') = h_pulse_tck tms tdi tdo rmask sync s; line = next_tdo s in
      bit (bb_reg s') 7 = (tms \<noteq> 0)
    \<and> (if tdi \<ge> 0
        then bitcount_tdi s' = bitcount_tdi s + 1 \<and> bit (bb_reg s') 3 = (tdi \<noteq> 0)
        else bitcount_tdi s' = bitcount_tdi s \<and> bit (bb_reg s') 3 = bit (bb_reg s) 3)
    \<and> (line = 0 \<or> line = 1)
    \<and> line = tdo_bit (readback s (nread s + 2))
    \<and> (if tdo \<ge> 0
        then bitcount_tdo s' = bitcount_tdo s + 1 \<and> rc = (if tdo \<noteq> line then -1 else line)
        else bitcount_tdo s' = bitcount_tdo s \<and> rc = line)
    \<and> clockcount s' = clockcount s + 1
    \<and> trace s' = trace s @ pulse_events (bb_reg s')
                  @ (if verbose s \<ge> 4
                     then [Stderr (Msg_Pulse tms tdi tdo line rmask rc)] else []))"
  using next_tdo_cases [of s]
  by (simp add: h_pulse_tck_eq Let_def bit_tms_reg bit_tdi_reg next_tdo_def)

theorem h_pulse_tck_contract_witness:
  "fst (h_pulse_tck 1 1 1 1 0 example_world) = 1
   \<and> bitcount_tdi (snd (h_pulse_tck 1 1 1 1 0 example_world)) = 1
   \<and> bitcount_tdo (snd (h_pulse_tck 1 1 1 1 0 example_world)) = 1
   \<and> clockcount (snd (h_pulse_tck 1 1 1 1 0 example_world)) = 1
   \<and> bit (bb_reg (snd (h_pulse_tck 1 1 1 1 0 example_world))) 7
   \<and> bit (bb_reg (snd (h_pulse_tck 1 1 1 1 0 example_world))) 3"
  using h_pulse_tck_contract [of 1 1 1 1 0 example_world]
  by (simp add: split_def Let_def next_tdo_def tdo_bit_def example_world_simps
      example_readback_def)

text \<open>
  C6. From any well-formed state, after any session, the captured sequence is the old
  one followed by the bits sampled on the pulses that asked for capture, cut off after
  256 entries: its length never exceeds 256 and is exactly 256 once more than 256 bits
  were offered, the first 256 are kept in capture order, and later bits are dropped. The
  drop is silent: neither the value returned by \<open>h_pulse_tck\<close> nor anything it prints
  or sends depends on the contents or fill level of the capture array.
\<close>

theorem capture_capped_at_256:
  assumes "udata_wf s"
  shows "udata_wf (run cs s)
    \<and> retval_i (run cs s) \<le> 256
    \<and> captured (run cs s) = take 256 (captured s @ sampled cs s)
    \<and> length (captured (run cs s))
        = min 256 (length (captured s) + length (filter is_capture cs))
    \<and> fst (h_pulse_tck tms tdi tdo rmask sync (s\<lparr>retval_i := i, retval := r\<rparr>))
        = fst (h_pulse_tck tms tdi tdo rmask sync s)
    \<and> trace (snd (h_pulse_tck tms tdi tdo rmask sync (s\<lparr>retval_i := i, retval := r\<rparr>)))
        = trace (snd (h_pulse_tck tms tdi tdo rmask sync s))"
proof -
  from capture_run [OF assms, of cs]
  have wf: "udata_wf (run cs s)"
    and cap: "captured (run cs s) = take 256 (captured s @ sampled cs s)" by simp_all
  from wf have "retval_i (run cs s) \<le> 256" by (simp add: udata_wf_def)
  moreover have "length (captured (run cs s))
        = min 256 (length (captured s) + length (filter is_capture cs))"
    by (simp add: cap length_sampled min.commute)
  moreover have "fst (h_pulse_tck tms tdi tdo rmask sync (s\<lparr>retval_i := i, retval := r\<rparr>))
        = fst (h_pulse_tck tms tdi tdo rmask sync s)"
    by (simp add: h_pulse_tck_eq Let_def next_tdo_def)
  moreover have "trace (snd (h_pulse_tck tms tdi tdo rmask sync (s\<lparr>retval_i := i, retval := r\<rparr>)))
        = trace (snd (h_pulse_tck tms tdi tdo rmask sync s))"
    by (simp add: h_pulse_tck_eq Let_def next_tdo_def)
  ultimately show ?thesis using wf cap by simp
qed

theorem capture_capped_at_256_witness:
  "udata_wf example_world
   \<and> length (captured (run (replicate 300 (Pulse_Tck 0 (-1) (-1) 1 0)) example_world)) = 256
   \<and> captured (run [Pulse_Tck 0 (-1) (-1) 1 0, Pulse_Tck 0 (-1) (-1) 0 0,
                     Pulse_Tck 0 (-1) (-1) 1 0] example_world) = [1, 0]"
proof -
  have wf: "udata_wf example_world"
    by (simp add: udata_wf_def example_world_simps)
  have c0: "captured example_world = []"
    by (simp add: captured_def example_world_simps)
  have "length (captured (run (replicate 300 (Pulse_Tck 0 (-1) (-1) 1 0)) example_world))
          = min 256 (length (captured example_world)
              + length (filter is_capture (replicate 300 (Pulse_Tck 0 (-1) (-1) 1 0))))"
    by (rule conjunct1 [OF conjunct2 [OF conjunct2 [OF conjunct2
          [OF capture_capped_at_256 [OF wf]]]]])
  then have a: "length (captured (run (replicate 300 (Pulse_Tck 0 (-1) (-1) 1 0)) example_world))
          = 256"
    by (simp add: c0)
  have "captured (run [Pulse_Tck 0 (-1) (-1) 1 0, Pulse_Tck 0 (-1) (-1) 0 0,
                     Pulse_Tck 0 (-1) (-1) 1 0] example_world)
         = take 256 (captured example_world @ sampled [Pulse_Tck 0 (-1) (-1) 1 0,
             Pulse_Tck 0 (-1) (-1) 0 0, Pulse_Tck 0 (-1) (-1) 1 0] example_world)"
    by (rule conjunct1 [OF conjunct2 [OF conjunct2 [OF capture_capped_at_256 [OF wf]]]])
  then have b: "captured (run [Pulse_Tck 0 (-1) (-1) 1 0, Pulse_Tck 0 (-1) (-1) 0 0,
                     Pulse_Tck 0 (-1) (-1) 1 0] example_world) = [1, 0]"
    by (simp add: c0 h_pulse_tck_eq Let_def next_tdo_def tdo_bit_def example_world_simps
        example_readback_def)
  from wf a b show ?thesis by simp
qed

text \<open>
  C7 (as amended). The loop \<open>for (i=0; i < u.retval_i; i+=4)\<close> runs once for every
  started group: with \<open>n\<close> captured bits \<open>-B\<close> prints \<open>(n + 3) div 4\<close> values, not
  \<open>n div 4\<close>. It reads the first \<open>4 * ((n + 3) div 4)\<close> entries of the array, all inside
  its 256 entries; the entries past the captured ones still hold their initial zero in
  every state a session can reach, so a trailing partial group is printed padded with
  zeros. When \<open>n\<close> is a multiple of 4 both modes read the captured entries only.
\<close>

theorem hex_big_endian_partial_group:
  "(udata_wf u \<longrightarrow>
      hex_outer HEX_B u 0 = Inr (nibbles (take (4 * ((retval_i u + 3) div 4)) (retval u)))
    \<and> length (nibbles (take (4 * ((retval_i u + 3) div 4)) (retval u)))
        = (retval_i u + 3) div 4
    \<and> 4 * ((retval_i u + 3) div 4) \<le> length (retval u)
    \<and> (fresh_tail u \<longrightarrow>
         take (4 * ((retval_i u + 3) div 4)) (retval u)
           = captured u @ replicate (4 * ((retval_i u + 3) div 4) - retval_i u) 0)
    \<and> (4 dvd retval_i u \<longrightarrow>
         hex_outer HEX_B u 0 = Inr (nibbles (captured u))
       \<and> hex_outer HEX_L u 0 = Inr (nibbles (rev (captured u)))))
   \<and> udata_wf (run cs (initial_world v rc rb clk))
   \<and> fresh_tail (run cs (initial_world v rc rb clk))"
proof -
  let ?N = "4 * ((retval_i u + 3) div 4)"
  have wf0: "udata_wf (initial_world v rc rb clk)"
    by (simp add: udata_wf_def initial_world_def)
  have ft0: "fresh_tail (initial_world v rc rb clk)"
    by (simp add: fresh_tail_def initial_world_def)
  have reach: "udata_wf (run cs (initial_world v rc rb clk))
      \<and> fresh_tail (run cs (initial_world v rc rb clk))"
    using capture_run [OF wf0, of cs] fresh_tail_run [OF wf0 ft0, of cs] by simp
  have main: "hex_outer HEX_B u 0 = Inr (nibbles (take ?N (retval u)))
    \<and> length (nibbles (take ?N (retval u))) = (retval_i u + 3) div 4
    \<and> ?N \<le> length (retval u)
    \<and> (fresh_tail u \<longrightarrow> take ?N (retval u) = captured u @ replicate (?N - retval_i u) 0)
    \<and> (4 dvd retval_i u \<longrightarrow>
         hex_outer HEX_B u 0 = Inr (nibbles (captured u))
       \<and> hex_outer HEX_L u 0 = Inr (nibbles (rev (captured u))))" if wf: "udata_wf u"
  proof -
    from wf have len: "length (retval u) = 256" and i: "retval_i u \<le> 256"
      by (simp_all add: udata_wf_def)
    from i have N: "?N \<le> 256" by presburger
    have nN: "retval_i u \<le> ?N" by presburger
    have f: "hex_outer HEX_B u 0 = Inr (nibbles (take ?N (retval u)))"
      by (rule hex_outer_forward) (simp_all add: HEX_B_def len N)
    have l: "length (nibbles (take ?N (retval u))) = (retval_i u + 3) div 4"
      using N by (simp add: length_nibbles len)
    have p: "take ?N (retval u) = captured u @ replicate (?N - retval_i u) 0"
      if "fresh_tail u"
      by (rule fresh_tail_padding [OF that nN]) (simp add: len N)
    have w: "hex_outer HEX_B u 0 = Inr (nibbles (captured u))
       \<and> hex_outer HEX_L u 0 = Inr (nibbles (rev (captured u)))" if d: "4 dvd retval_i u"
    proof -
      from d have n: "?N = retval_i u" by presburger
      have "hex_outer HEX_L u 0 = Inr (nibbles (rev (captured u)))"
        by (rule hex_outer_backward) (simp_all add: HEX_L_def d len i)
      with f show ?thesis by (simp only: n captured_def)
    qed
    from f l p w N show ?thesis by (simp add: len)
  qed
  from main reach show ?thesis by blast
qed

theorem hex_big_endian_partial_group_witness:
  "udata_wf example_world5 \<and> fresh_tail example_world5
   \<and> captured example_world5 = [1, 0, 0, 0, 1]
   \<and> hex_outer HEX_B example_world5 0 = Inr [8, 8]"
  using hex_big_endian_partial_group [of example_world5 "[]" 0 0 example_readback example_clock]
    world5_eval
  by simp

text \<open>
  C7 as stated fails: with the five captured bits 1,0,0,0,1 \<open>-B\<close> prints two values, the
  second from the partial group, and \<open>-L\<close> reads \<open>u.retval[-1]\<close>, outside the array.
\<close>

theorem hex_partial_group_counterexample:
  "captured example_world5 = [1, 0, 0, 0, 1]
   \<and> print_retval HEX_B example_world5 = Inr (Printed_Hex [8, 8])
   \<and> print_retval HEX_B example_world5 \<noteq> Inr (Printed_Hex [8])
   \<and> print_retval HEX_L example_world5 = Inl Out_Of_Bounds"
  by code_simp

text \<open>
  C8. At process start, and then after any session, the register, every byte handed to
  \<open>ftdi_write_data\<close> and every direction mask given to \<open>ftdi_set_bitmode\<close> have their
  1-bits inside \<open>MASK_IO\<close> (TMS, TDI, TCK); in particular no byte written has the TDO
  bit set.
\<close>

theorem only_output_bits_written:
  "pins_ok (initial_world v rc rb clk)
   \<and> (pins_ok s \<longrightarrow>
        pins_ok (run cs s)
      \<and> list_all (\<lambda>b. b AND NOT MASK_IO = 0 \<and> b AND MASK_TDO = 0)
           (written (trace (run cs s)))
      \<and> list_all (\<lambda>m. m AND NOT MASK_IO = 0) (direction_masks (trace (run cs s))))"
proof -
  have "pins_ok (run cs s)
      \<and> list_all (\<lambda>b. b AND NOT MASK_IO = 0 \<and> b AND MASK_TDO = 0)
           (written (trace (run cs s)))
      \<and> list_all (\<lambda>m. m AND NOT MASK_IO = 0) (direction_masks (trace (run cs s)))"
    if "pins_ok s"
  proof -
    from pins_ok_run [OF that, of cs] have p: "pins_ok (run cs s)" .
    then have w: "list_all output_only (written (trace (run cs s)))"
      and d: "list_all output_only (direction_masks (trace (run cs s)))"
      by (simp_all add: pins_ok_def)
    from d have "list_all (\<lambda>m. m AND NOT MASK_IO = 0) (direction_masks (trace (run cs s)))"
      by (simp add: output_only_def [abs_def])
    with p list_all_output_only [OF w] show ?thesis by simp
  qed
  with pins_ok_initial [of v rc rb clk] show ?thesis by blast
qed

theorem only_output_bits_written_witness:
  "pins_ok example_world
   \<and> written (trace (run example_session example_world)) = [0x88, 0xA8, 0x88, 0x08, 0x28, 0x08]
   \<and> list_all (\<lambda>b. b AND NOT MASK_IO = 0 \<and> b AND MASK_TDO = 0)
        [0x88, 0xA8, 0x88, 0x08, 0x28, 0x08]"
proof -
  have p: "pins_ok example_world"
    unfolding example_world_def
    by (rule conjunct1 [OF only_output_bits_written])
  from only_output_bits_written [of 0 0 example_readback example_clock example_world
      example_session] p
  have "list_all (\<lambda>b. b AND NOT MASK_IO = 0 \<and> b AND MASK_TDO = 0)
           (written (trace (run example_session example_world)))" by blast
  with p example_session_eval show ?thesis by (simp only:)
qed

text \<open>
  C9. \<open>h_report_device\<close> prints the identifier, its bits 31 to 28 as revision, its bits
  27 to 12 as part and its bits 11 to 1 as manufacturer; \<open>0x12345678\<close> gives revision
  \<open>0x1\<close>, part \<open>0x2345\<close> and manufacturer \<open>0x33C\<close>, for a 32-bit and for a 64-bit
  \<open>unsigned long\<close>.
\<close>

theorem h_report_device_fields:
  "h_report_device idcode =
     (idcode, take_bit 4 (drop_bit 28 idcode), take_bit 16 (drop_bit 12 idcode),
      take_bit 11 (drop_bit 1 idcode))
   \<and> h_report_device (0x12345678 :: 32 word) = (0x12345678, 0x1, 0x2345, 0x33C)
   \<and> h_report_device (0x12345678 :: 64 word) = (0x12345678, 0x1, 0x2345, 0x33C)"
  by (simp add: h_report_device_def take_bit_eq_mask mask_eq_exp_minus_1)

theorem h_report_device_fields_witness:
  "h_report_device (0xFFFFFFFF :: 32 word) = (0xFFFFFFFF, 0xF, 0xFFFF, 0x7FF)"
  using h_report_device_fields [of "0xFFFFFFFF :: 32 word"]
  by (simp add: h_report_device_def)

text \<open>
  C10. \<open>h_udelay\<close> leaves the clock counter, the TDI and TDO counters and the capture
  array with its fill level as they were, whatever its arguments: the pulses of its loop
  are neither counted nor captured. Of the register it changes at most the TMS bit, and
  nothing at all unless the pulse count is positive. So after any session the clock
  counter has grown by the number of \<open>h_pulse_tck\<close> calls, and by nothing else.
\<close>

theorem h_udelay_frame:
  "(let s' = h_udelay usecs tms num_tck s in
      clockcount s' = clockcount s
    \<and> bitcount_tdi s' = bitcount_tdi s
    \<and> bitcount_tdo s' = bitcount_tdo s
    \<and> retval_i s' = retval_i s
    \<and> retval s' = retval s
    \<and> captured s' = captured s
    \<and> bb_reg s' = (if num_tck > 0 then tms_reg tms (bb_reg s) else bb_reg s)
    \<and> bb_reg s' AND NOT MASK_TMS = bb_reg s AND NOT MASK_TMS)
   \<and> clockcount (run cs s) = clockcount s + int (length (filter is_pulse_tck cs))"
  by (simp add: h_udelay_eq Let_def captured_def tms_reg_others clockcount_run)

theorem h_udelay_frame_witness:
  "clockcount (h_udelay 1000 1 2 example_world) = 0
   \<and> retval_i (h_udelay 1000 1 2 example_world) = 0
   \<and> bb_reg (h_udelay 1000 1 2 example_world) = MASK_TMS
   \<and> bb_reg (h_udelay 1000 1 0 example_world) = 0
   \<and> clockcount (run [Udelay 1000 1 2, Pulse_Tck 1 1 1 1 0, Udelay 5 0 3] example_world) = 1"
  using h_udelay_frame [of 1000 1 2 example_world "[Udelay 1000 1 2, Pulse_Tck 1 1 1 1 0, Udelay 5 0 3]"]
    h_udelay_frame [of 1000 1 0 example_world "[]"]
  by (simp add: Let_def example_world_simps tms_reg_def)

end
